theory Spec2Isabelle
  imports Complex_Main "HOL-Library.Signed_Division"
begin

section \<open>Data model of the MusicPlayer component\<close>

text \<open>
  The component of \<^verbatim>\<open>page.tsx\<close> keeps eight pieces of React state, one reference to an
  \<^verbatim>\<open>audio\<close> element and a hard-coded list of songs. JavaScript numbers are modelled as
  \<^typ>\<open>int\<close> where the code only ever holds integers (the track index) and as \<^typ>\<open>real\<close>
  otherwise (volume, times, pointer coordinates); \<^verbatim>\<open>NaN\<close> and the infinities have no
  counterpart, so a division whose divisor may be zero is only used under the hypothesis that
  it is not.
\<close>

datatype PlayerState = Playing | Paused | Loading

datatype RepeatMode = RepeatOff | RepeatOne | RepeatAll

record Song =
  src :: string
  title :: string
  artist :: string

text \<open>The artist of the last two songs holds a u-umlaut, written here as its two UTF-8 bytes.\<close>

definition songs :: "Song list" where
  "songs =
    [\<lparr>src = ''/music/Lonely.mp3'', title = ''Lonely'', artist = ''Justin Bieber''\<rparr>,
     \<lparr>src = ''https://www.soundhelix.com/examples/mp3/SoundHelix-Song-8.mp3'',
      title = ''Spy vs. Spy - Chill-out Acid Squeeze Mix'',
      artist = ''T. Sch'' @ [CHR 0xC3, CHR 0xBC] @ ''rger''\<rparr>,
     \<lparr>src = ''https://www.soundhelix.com/examples/mp3/SoundHelix-Song-1.mp3'',
      title = ''Song 1'',
      artist = ''T. Sch'' @ [CHR 0xC3, CHR 0xBC] @ ''rger''\<rparr>]"

text \<open>The values of the eight \<^verbatim>\<open>useState\<close> hooks as one render sees them.\<close>

record player =
  current :: int
  state :: PlayerState
  progress :: real
  duration :: real
  volume :: real
  userStarted :: bool
  isShuffle :: bool
  repeatMode :: RepeatMode

text \<open>The arguments of the \<^verbatim>\<open>useState\<close> calls.\<close>

definition init :: player where
  "init = \<lparr>current = 0, state = Paused, progress = 0, duration = 0, volume = 0.2,
     userStarted = False, isShuffle = False, repeatMode = RepeatOff\<rparr>"

text \<open>
  The media element, as far as the component uses it: its volume and current time, the
  commands it has received so far (oldest first), and the listeners attached to it. The three
  listeners \<^verbatim>\<open>updateProgress\<close>, \<^verbatim>\<open>setMeta\<close> and \<^verbatim>\<open>onEnd\<close> are
  always attached and removed together; \<open>el_listeners\<close> holds the state of the render that
  created the attached closures (\<open>None\<close>: nothing attached).
\<close>

datatype media_cmd = Load | Play | Pause

record audio_el =
  el_volume :: real
  el_currentTime :: real
  el_log :: "media_cmd list"
  el_listeners :: "player option"

datatype error = TypeError | PlayRejected

text \<open>
  The whole component: the React state of the latest render, \<^verbatim>\<open>audioRef.current\<close>
  (\<open>None\<close> is \<^verbatim>\<open>null\<close>), the continuations of \<^verbatim>\<open>togglePlay\<close> that wait for
  their 400 ms timer (each with the \<^verbatim>\<open>next\<close> it captured, oldest first), and the
  errors that escaped a handler so far.
\<close>

record world =
  ui :: player
  audioRef :: "audio_el option"
  timers :: "PlayerState list"
  uncaught :: "error list"

definition issue :: "media_cmd list \<Rightarrow> audio_el \<Rightarrow> audio_el" where
  "issue cs a = a\<lparr>el_log := el_log a @ cs\<rparr>"

section \<open>Effects and rendering\<close>

text \<open>
  First \<^verbatim>\<open>useEffect\<close> (dependencies \<^verbatim>\<open>[current, volume]\<close>), run by the render whose
  state is \<open>p\<close>: it returns when the reference is null, else pushes the volume and attaches
  listeners closed over \<open>p\<close>; the cleanup of the previous run has removed the old ones.
\<close>

definition audio_sync :: "player \<Rightarrow> world \<Rightarrow> world" where
  "audio_sync p w =
    (case audioRef w of
       None \<Rightarrow> w
     | Some a \<Rightarrow> w\<lparr>audioRef := Some (a\<lparr>el_volume := volume p, el_listeners := Some p\<rparr>)\<rparr>)"

text \<open>
  Second \<^verbatim>\<open>useEffect\<close> (dependencies \<^verbatim>\<open>[current]\<close>), run by the render whose state
  is \<open>p\<close>. The promise of \<^verbatim>\<open>play()\<close> is not awaited here. The last statement is
  \<^verbatim>\<open>setState(state)\<close> with the \<^verbatim>\<open>state\<close> of that render.
\<close>

definition track_change :: "player \<Rightarrow> world \<Rightarrow> world" where
  "track_change p w =
    (if \<not> userStarted p then w
     else case audioRef w of
       None \<Rightarrow> w
     | Some a \<Rightarrow> w\<lparr>audioRef := Some (issue [Load, Play] a), ui := (ui w)\<lparr>state := state p\<rparr>\<rparr>)"

text \<open>
  A state update to \<open>p'\<close>, the render that follows and the effects whose dependencies
  changed, in the order the component declares them.
\<close>

definition render :: "player \<Rightarrow> world \<Rightarrow> world" where
  "render p' w =
    (let p = ui w;
         w0 = w\<lparr>ui := p'\<rparr>;
         w1 = (if current p' \<noteq> current p \<or> volume p' \<noteq> volume p then audio_sync p' w0 else w0)
     in if current p' \<noteq> current p then track_change p' w1 else w1)"

text \<open>Mounting with the reference \<open>ref\<close>: the first render runs both effects.\<close>

definition mount :: "audio_el option \<Rightarrow> world" where
  "mount ref =
    track_change init
      (audio_sync init \<lparr>ui = init, audioRef = ref, timers = [], uncaught = []\<rparr>)"

text \<open>React detaches the reference when the component unmounts.\<close>

definition unmount :: "world \<Rightarrow> world" where
  "unmount w = w\<lparr>audioRef := None\<rparr>"

definition setCurrent :: "(int \<Rightarrow> int) \<Rightarrow> world \<Rightarrow> world" where
  "setCurrent f w = render ((ui w)\<lparr>current := f (current (ui w))\<rparr>) w"

definition setState :: "PlayerState \<Rightarrow> world \<Rightarrow> world" where
  "setState s w = render ((ui w)\<lparr>state := s\<rparr>) w"

section \<open>Controls\<close>

text \<open>
  \<^verbatim>\<open>togglePlay\<close> up to its \<^verbatim>\<open>await\<close>: the guard, the two state updates, and the
  continuation left waiting with the \<^verbatim>\<open>next\<close> it computed.
\<close>

definition togglePlay :: "world \<Rightarrow> world" where
  "togglePlay w =
    (if audioRef w = None \<or> state (ui w) = Loading then w
     else
       let next = (if state (ui w) = Playing then Paused else Playing);
           w1 = render ((ui w)\<lparr>userStarted := True\<rparr>) w;
           w2 = setState Loading w1
       in w2\<lparr>timers := timers w2 @ [next]\<rparr>)"

text \<open>
  \<^verbatim>\<open>togglePlay\<close> after the timer. It dereferences \<^verbatim>\<open>audioRef.current\<close> without a
  new check, so a null reference throws; \<open>resolves\<close> says whether the promise of
  \<^verbatim>\<open>play()\<close> resolves (an awaited rejection is thrown before \<^verbatim>\<open>setState(next)\<close>).
  \<open>Inl\<close> carries the error and the world the throw leaves behind.
\<close>

definition togglePlay_resume :: "PlayerState \<Rightarrow> bool \<Rightarrow> world \<Rightarrow> error \<times> world + world" where
  "togglePlay_resume next resolves w =
    (case audioRef w of
       None \<Rightarrow> Inl (TypeError, w)
     | Some a \<Rightarrow>
         if next = Playing then
           (let w1 = w\<lparr>audioRef := Some (issue [Play] a)\<rparr>
            in if resolves then Inr (setState next w1) else Inl (PlayRejected, w1))
         else Inr (setState next (w\<lparr>audioRef := Some (issue [Pause] a)\<rparr>)))"

definition toggleShuffle :: "world \<Rightarrow> world" where
  "toggleShuffle w = render ((ui w)\<lparr>isShuffle := \<not> isShuffle (ui w)\<rparr>) w"

definition toggleRepeat :: "world \<Rightarrow> world" where
  "toggleRepeat w =
    render ((ui w)\<lparr>repeatMode :=
      (case repeatMode (ui w) of
         RepeatOff \<Rightarrow> RepeatOne | RepeatOne \<Rightarrow> RepeatAll | RepeatAll \<Rightarrow> RepeatOff)\<rparr>) w"

text \<open>
  The \<^verbatim>\<open>do ... while (next === current)\<close> loop of \<^verbatim>\<open>shuffle\<close>. The list holds the
  values the successive calls of \<^verbatim>\<open>Math.random()\<close> return; \<open>None\<close> says that the loop
  has not left after all of them.
\<close>

fun shuffle_loop :: "int \<Rightarrow> int \<Rightarrow> real list \<Rightarrow> int option" where
  "shuffle_loop n cur [] = None"
| "shuffle_loop n cur (r # rs) =
    (let next = \<lfloor>r * of_int n\<rfloor> in if next = cur then shuffle_loop n cur rs else Some next)"

text \<open>
  The functions below are closures of a render; \<open>c\<close> is the state of the render that created
  them and \<open>w\<close> the component when they run.
\<close>

definition shuffle :: "Song list \<Rightarrow> real list \<Rightarrow> player \<Rightarrow> world \<Rightarrow> world option" where
  "shuffle sgs rs c w =
    (if length sgs \<le> 1 then Some w
     else case shuffle_loop (int (length sgs)) (current c) rs of
       None \<Rightarrow> None
     | Some next \<Rightarrow> Some (setCurrent (\<lambda>_. next) w))"

text \<open>
  JavaScript's \<^verbatim>\<open>%\<close> takes the sign of the dividend, as \<open>smod\<close> does; for an empty song
  list it gives \<^verbatim>\<open>NaN\<close>, which the model does not have.
\<close>

definition nextSong :: "Song list \<Rightarrow> real list \<Rightarrow> player \<Rightarrow> world \<Rightarrow> world option" where
  "nextSong sgs rs c w =
    (if isShuffle c then shuffle sgs rs c w
     else Some (setCurrent (\<lambda>prev. (prev + 1) smod int (length sgs)) w))"

definition prevSong :: "Song list \<Rightarrow> world \<Rightarrow> world" where
  "prevSong sgs w = setCurrent (\<lambda>prev. if prev = 0 then int (length sgs) - 1 else prev - 1) w"

section \<open>Listeners of the media element\<close>

text \<open>\<^verbatim>\<open>audioRef.current?.play()\<close>\<close>

definition play_if_present :: "world \<Rightarrow> world" where
  "play_if_present w =
    (case audioRef w of None \<Rightarrow> w | Some a \<Rightarrow> w\<lparr>audioRef := Some (issue [Play] a)\<rparr>)"

definition onEnd :: "Song list \<Rightarrow> real list \<Rightarrow> player \<Rightarrow> world \<Rightarrow> world option" where
  "onEnd sgs rs c w =
    (if repeatMode c = RepeatOne then Some (play_if_present w)
     else if isShuffle c then shuffle sgs rs c w
     else if repeatMode c = RepeatAll then nextSong sgs rs c w
     else if current c < int (length sgs) - 1 then nextSong sgs rs c w
     else Some (setState Paused w))"

text \<open>
  \<^verbatim>\<open>setMeta\<close>: \<open>d\<close> is \<^verbatim>\<open>audio.duration\<close>, \<open>None\<close> for \<^verbatim>\<open>NaN\<close>;
  \<^verbatim>\<open>audio.duration || 0\<close> turns \<^verbatim>\<open>NaN\<close> into 0.
\<close>

definition setMeta :: "real option \<Rightarrow> world \<Rightarrow> world" where
  "setMeta d w = render ((ui w)\<lparr>duration := (case d of None \<Rightarrow> 0 | Some x \<Rightarrow> x)\<rparr>) w"

section \<open>Seek bar and volume bar\<close>

text \<open>The bounding box of a bar, as far as \<^verbatim>\<open>update\<close> reads it.\<close>

record rect =
  rect_left :: real
  rect_width :: real

definition percent :: "real \<Rightarrow> rect \<Rightarrow> real" where
  "percent clientX r = (clientX - rect_left r) / rect_width r"

definition clamped :: "real \<Rightarrow> real" where
  "clamped p = min 1 (max 0 p)"

text \<open>
  \<^verbatim>\<open>update\<close> of the seek bar; \<^verbatim>\<open>!duration\<close> holds for 0 (the state is never
  \<^verbatim>\<open>NaN\<close>, see \<open>setMeta\<close>).
\<close>

definition seek_bar_update :: "real \<Rightarrow> rect \<Rightarrow> world \<Rightarrow> world" where
  "seek_bar_update clientX r w =
    (case audioRef w of
       None \<Rightarrow> w
     | Some a \<Rightarrow>
         if duration (ui w) = 0 then w
         else w\<lparr>audioRef :=
           Some (a\<lparr>el_currentTime := duration (ui w) * clamped (percent clientX r)\<rparr>)\<rparr>)"

text \<open>\<^verbatim>\<open>update\<close> of the volume bar.\<close>

definition volume_bar_update :: "real \<Rightarrow> rect \<Rightarrow> world \<Rightarrow> world" where
  "volume_bar_update clientX r w = render ((ui w)\<lparr>volume := clamped (percent clientX r)\<rparr>) w"

text \<open>
  The pointer-down handlers call \<^verbatim>\<open>update\<close> with \<^verbatim>\<open>e.clientX\<close> (mouse) or with
  \<^verbatim>\<open>e.touches[0].clientX\<close> (touch; a touch-start event has at least one touch point, so
  the list is given by its head and tail).
\<close>

definition seek_onMouseDown :: "real \<Rightarrow> rect \<Rightarrow> world \<Rightarrow> world" where
  "seek_onMouseDown clientX r w = seek_bar_update clientX r w"

definition seek_onTouchStart :: "real \<Rightarrow> real list \<Rightarrow> rect \<Rightarrow> world \<Rightarrow> world" where
  "seek_onTouchStart t0 ts r w = seek_bar_update (hd (t0 # ts)) r w"

definition volume_onMouseDown :: "real \<Rightarrow> rect \<Rightarrow> world \<Rightarrow> world" where
  "volume_onMouseDown clientX r w = volume_bar_update clientX r w"

definition volume_onTouchStart :: "real \<Rightarrow> real list \<Rightarrow> rect \<Rightarrow> world \<Rightarrow> world" where
  "volume_onTouchStart t0 ts r w = volume_bar_update (hd (t0 # ts)) r w"

section \<open>Events\<close>

text \<open>
  What can happen to a mounted component. A handler that React attached in the latest render
  is a closure of that render; the \<^verbatim>\<open>ended\<close> listener is the closure stored in the
  element. \<open>Timer b\<close> runs the oldest waiting continuation of \<^verbatim>\<open>togglePlay\<close>, and an
  error that escapes it is recorded. \<open>VolumeMove\<close> is a move of a drag on the volume bar:
  it calls the same \<^verbatim>\<open>update\<close> as the pointer-down. The \<^verbatim>\<open>timeupdate\<close> listener
  only writes \<open>progress\<close>, which nothing else reads, and is left out.
\<close>

datatype event =
    ClickPlay
  | Timer bool
  | ClickShuffle
  | ClickRepeat
  | ClickNext "real list"
  | ClickPrev
  | Ended "real list"
  | LoadedMetadata "real option"
  | SeekMouseDown real rect
  | SeekTouchStart real "real list" rect
  | VolumeMouseDown real rect
  | VolumeTouchStart real "real list" rect
  | VolumeMove real rect
  | Unmount

fun step :: "Song list \<Rightarrow> event \<Rightarrow> world \<Rightarrow> world option" where
  "step sgs ClickPlay w = Some (togglePlay w)"
| "step sgs (Timer b) w =
    (case timers w of
       [] \<Rightarrow> Some w
     | next # ts \<Rightarrow>
         (case togglePlay_resume next b (w\<lparr>timers := ts\<rparr>) of
            Inl (e, w') \<Rightarrow> Some (w'\<lparr>uncaught := uncaught w' @ [e]\<rparr>)
          | Inr w' \<Rightarrow> Some w'))"
| "step sgs ClickShuffle w = Some (toggleShuffle w)"
| "step sgs ClickRepeat w = Some (toggleRepeat w)"
| "step sgs (ClickNext rs) w = nextSong sgs rs (ui w) w"
| "step sgs ClickPrev w = Some (prevSong sgs w)"
| "step sgs (Ended rs) w =
    (case audioRef w of
       None \<Rightarrow> Some w
     | Some a \<Rightarrow> (case el_listeners a of None \<Rightarrow> Some w | Some c \<Rightarrow> onEnd sgs rs c w))"
| "step sgs (LoadedMetadata d) w =
    (case audioRef w of
       None \<Rightarrow> Some w
     | Some a \<Rightarrow> (case el_listeners a of None \<Rightarrow> Some w | Some c \<Rightarrow> Some (setMeta d w)))"
| "step sgs (SeekMouseDown x r) w = Some (seek_onMouseDown x r w)"
| "step sgs (SeekTouchStart t0 ts r) w = Some (seek_onTouchStart t0 ts r w)"
| "step sgs (VolumeMouseDown x r) w = Some (volume_onMouseDown x r w)"
| "step sgs (VolumeTouchStart t0 ts r) w = Some (volume_onTouchStart t0 ts r w)"
| "step sgs (VolumeMove x r) w = Some (volume_bar_update x r w)"
| "step sgs Unmount w = Some (unmount w)"

fun run :: "Song list \<Rightarrow> event list \<Rightarrow> world \<Rightarrow> world option" where
  "run sgs [] w = Some w"
| "run sgs (e # es) w = (case step sgs e w of None \<Rightarrow> None | Some w' \<Rightarrow> run sgs es w')"

text \<open>A pointer event is well formed when its bar has a positive width.\<close>

fun wf_event :: "event \<Rightarrow> bool" where
  "wf_event (SeekMouseDown x r) = (0 < rect_width r)"
| "wf_event (SeekTouchStart t0 ts r) = (0 < rect_width r)"
| "wf_event (VolumeMouseDown x r) = (0 < rect_width r)"
| "wf_event (VolumeTouchStart t0 ts r) = (0 < rect_width r)"
| "wf_event (VolumeMove x r) = (0 < rect_width r)"
| "wf_event _ = True"

text \<open>A media element that nothing has touched yet: full volume, at time 0.\<close>

definition fresh_audio :: audio_el where
  "fresh_audio = \<lparr>el_volume = 1, el_currentTime = 0, el_log = [], el_listeners = None\<rparr>"

text \<open>A bar 200 pixels wide whose left edge is at x = 100, used in the examples.\<close>

definition bar :: rect where
  "bar = \<lparr>rect_left = 100, rect_width = 200\<rparr>"

text \<open>
  The element and the listeners agree with the state: the volume is in \<open>[0, 1]\<close>, the
  element's volume is the state's, and the attached listeners are closures of a render with
  the current track index and volume.
\<close>

definition in_sync :: "world \<Rightarrow> bool" where
  "in_sync w =
    (0 \<le> volume (ui w) \<and> volume (ui w) \<le> 1
     \<and> (case audioRef w of
          None \<Rightarrow> True
        | Some a \<Rightarrow>
            el_volume a = volume (ui w)
            \<and> (case el_listeners a of
                 None \<Rightarrow> True
               | Some c \<Rightarrow> current c = current (ui w) \<and> volume c = volume (ui w))))"

section \<open>Basic facts about rendering\<close>

lemma ui_render: "ui (render p' w) = p'"
  by (simp add: render_def Let_def audio_sync_def track_change_def split: option.splits)

lemma render_same:
  "current p' = current (ui w) \<Longrightarrow> volume p' = volume (ui w) \<Longrightarrow> render p' w = w\<lparr>ui := p'\<rparr>"
  by (simp add: render_def Let_def)

lemma ui_setCurrent: "ui (setCurrent f w) = (ui w)\<lparr>current := f (current (ui w))\<rparr>"
  by (simp add: setCurrent_def ui_render)

lemma setState_eq: "setState s w = w\<lparr>ui := (ui w)\<lparr>state := s\<rparr>\<rparr>"
  by (simp add: setState_def render_same)

lemma smod_nonneg: "0 \<le> k \<Longrightarrow> 0 < n \<Longrightarrow> k smod n = k mod (n::int)"
  by (simp add: signed_modulo_int_def sgn_if)

lemma mount_None: "mount None = \<lparr>ui = init, audioRef = None, timers = [], uncaught = []\<rparr>"
  by (simp add: mount_def track_change_def audio_sync_def)

lemma ui_mount: "ui (mount ref) = init"
  by (simp add: mount_def track_change_def audio_sync_def init_def split: option.splits)

lemma ui_prevSong_mount: "ui (prevSong songs (mount ref)) = init\<lparr>current := 2\<rparr>"
  by (simp add: prevSong_def ui_setCurrent ui_mount) (simp add: init_def songs_def)

lemma ui_setMeta: "ui (setMeta d w) = (ui w)\<lparr>duration := (case d of None \<Rightarrow> 0 | Some x \<Rightarrow> x)\<rparr>"
  by (simp add: setMeta_def ui_render)

lemma setMeta_eq: "setMeta d w = w\<lparr>ui := (ui w)\<lparr>duration := (case d of None \<Rightarrow> 0 | Some x \<Rightarrow> x)\<rparr>\<rparr>"
  by (simp add: setMeta_def render_same)

section \<open>Initial state\<close>

text \<open>
  Claim C10. After mounting, whatever the reference holds, the state is: track index 0,
  player state paused, progress 0, duration 0, volume 0.2 (neither 0 nor 1), shuffle off,
  repeat mode off, user-started flag false. No continuation waits, and mounting has sent no
  command to the media element.
\<close>

theorem mount_defaults:
  "ui (mount ref) = \<lparr>current = 0, state = Paused, progress = 0, duration = 0, volume = 2 / 10,
      userStarted = False, isShuffle = False, repeatMode = RepeatOff\<rparr>
   \<and> volume (ui (mount ref)) \<noteq> 0 \<and> volume (ui (mount ref)) \<noteq> 1
   \<and> timers (mount ref) = [] \<and> uncaught (mount ref) = []
   \<and> map_option el_log (audioRef (mount ref)) = map_option el_log ref"
  by (simp add: mount_def init_def track_change_def audio_sync_def split: option.splits)

section \<open>Play/pause toggle\<close>

text \<open>
  Claim C6. A toggle request while the player state is loading changes nothing at all: the
  React state, the media element with its command log, and the waiting continuations are
  those of before.
\<close>

theorem togglePlay_loading_noop:
  "state (ui w) = Loading \<Longrightarrow> togglePlay w = w \<and> step sgs ClickPlay w = Some w"
  by (simp add: togglePlay_def)

theorem togglePlay_loading_noop_witness:
  "state (ui (togglePlay (mount (Some fresh_audio)))) = Loading
   \<and> togglePlay (togglePlay (mount (Some fresh_audio))) = togglePlay (mount (Some fresh_audio))
   \<and> step songs ClickPlay (togglePlay (mount (Some fresh_audio)))
       = Some (togglePlay (mount (Some fresh_audio)))"
proof -
  have h: "state (ui (togglePlay (mount (Some fresh_audio)))) = Loading"
    by (simp add: togglePlay_def mount_def init_def track_change_def audio_sync_def
        fresh_audio_def Let_def setState_eq render_same)
  from togglePlay_loading_noop [OF h, of songs] h show ?thesis by simp
qed

section \<open>Track navigation\<close>

text \<open>
  Claim C4. From a valid track index \<open>i\<close>, with \<open>n\<close> tracks: when the closure of
  \<^verbatim>\<open>nextSong\<close> sees shuffle off, it returns and the index becomes \<open>(i + 1) mod n\<close>;
  \<^verbatim>\<open>prevSong\<close> makes it \<open>(i - 1 + n) mod n\<close>; and \<^verbatim>\<open>prevSong\<close> does the same
  whatever the shuffle flag and the repeat mode are, leaving both as they were.
\<close>

theorem next_prev_wrap:
  assumes "0 \<le> current (ui w)" and "current (ui w) < int (length sgs)"
  shows "(\<not> isShuffle c \<longrightarrow>
            (\<exists>w'. nextSong sgs rs c w = Some w'
               \<and> current (ui w') = (current (ui w) + 1) mod int (length sgs)))
       \<and> current (ui (prevSong sgs w))
           = (current (ui w) - 1 + int (length sgs)) mod int (length sgs)
       \<and> ui (prevSong sgs (w\<lparr>ui := (ui w)\<lparr>isShuffle := b, repeatMode := m\<rparr>\<rparr>))
           = (ui (prevSong sgs w))\<lparr>isShuffle := b, repeatMode := m\<rparr>"
proof -
  let ?n = "int (length sgs)"
  let ?i = "current (ui w)"
  have n: "0 < ?n" using assms by linarith
  have nxt: "(?i + 1) smod ?n = (?i + 1) mod ?n"
    using assms n by (simp add: smod_nonneg)
  have prv: "(if ?i = 0 then ?n - 1 else ?i - 1) = (?i - 1 + ?n) mod ?n"
  proof (cases "?i = 0")
    case True
    then show ?thesis using n by (simp add: zmod_minus1)
  next
    case False
    then have "0 \<le> ?i - 1" "?i - 1 < ?n" using assms by linarith+
    then show ?thesis using False by simp
  qed
  have a: "\<not> isShuffle c \<longrightarrow>
            (\<exists>w'. nextSong sgs rs c w = Some w'
               \<and> current (ui w') = (?i + 1) mod ?n)"
    using nxt by (simp add: nextSong_def ui_setCurrent)
  have "current (ui (prevSong sgs w)) = (if ?i = 0 then ?n - 1 else ?i - 1)"
    by (simp add: prevSong_def ui_setCurrent)
  then have b: "current (ui (prevSong sgs w)) = (?i - 1 + ?n) mod ?n"
    by (rule trans) (rule prv)
  have c: "ui (prevSong sgs (w\<lparr>ui := (ui w)\<lparr>isShuffle := b, repeatMode := m\<rparr>\<rparr>))
           = (ui (prevSong sgs w))\<lparr>isShuffle := b, repeatMode := m\<rparr>"
    by (simp add: prevSong_def ui_setCurrent)
  show ?thesis
    by (rule conjI [OF a conjI [OF b c]])
qed

text \<open>
  The three hard-coded songs: \<^verbatim>\<open>prevSong\<close> wraps from the first track to the last, and
  \<^verbatim>\<open>nextSong\<close> from the last back to the first.
\<close>

theorem next_prev_wrap_witness:
  "current (ui (mount None)) = 0 \<and> int (length songs) = 3
   \<and> current (ui (prevSong songs (mount None))) = 2
   \<and> \<not> isShuffle init
   \<and> (\<exists>w'. nextSong songs [] init (prevSong songs (mount None)) = Some w'
         \<and> current (ui w') = 0)"
proof -
  have m: "ui (mount None) = init"
    by (simp add: mount_def track_change_def audio_sync_def init_def)
  have i0: "current (ui (mount None)) = 0"
    by (simp add: m) (simp add: init_def)
  have n: "int (length songs) = 3"
    by (simp add: songs_def)
  have s: "\<not> isShuffle init"
    by (simp add: init_def)
  have p: "current (ui (prevSong songs (mount None))) = 2"
    using next_prev_wrap [where w = "mount None" and sgs = songs and c = init and rs = "[]"] i0 n by simp
  have "\<exists>w'. nextSong songs [] init (prevSong songs (mount None)) = Some w'
         \<and> current (ui w') = 0"
    using next_prev_wrap [where w = "prevSong songs (mount None)" and sgs = songs and c = init
        and rs = "[]"]
      p n s by simp
  with i0 n p s show ?thesis by blast
qed

section \<open>Shuffle\<close>

text \<open>
  The loop returns the first drawn index that differs from the current one, and keeps
  drawing exactly as long as every draw hits the current index.
\<close>

lemma shuffle_loop_find:
  "shuffle_loop n cur rs = List.find (\<lambda>k. k \<noteq> cur) (map (\<lambda>r. \<lfloor>r * of_int n\<rfloor>) rs)"
  by (induction rs) (simp_all add: Let_def)

lemma shuffle_loop_None:
  "shuffle_loop n cur rs = None \<longleftrightarrow> (\<forall>r\<in>set rs. \<lfloor>r * of_int n\<rfloor> = cur)"
  by (induction rs) (simp_all add: Let_def)

lemma shuffle_loop_Some:
  "shuffle_loop n cur rs = Some k \<Longrightarrow> k \<noteq> cur \<and> (\<exists>r\<in>set rs. k = \<lfloor>r * of_int n\<rfloor>)"
  by (induction rs) (auto simp: Let_def split: if_splits)

lemma draw_in_range:
  assumes "0 \<le> r" and "r < 1" and "0 < n"
  shows "0 \<le> \<lfloor>r * of_int n\<rfloor> \<and> \<lfloor>r * of_int n\<rfloor> < n"
proof -
  have "0 \<le> r * of_int n" using assms by simp
  moreover have "r * of_int n < of_int n" using assms by simp
  ultimately show ?thesis by (simp add: floor_less_iff)
qed

lemma shuffle_returns:
  assumes "1 < length sgs"
      and "\<forall>r\<in>set rs. 0 \<le> r \<and> r < 1"
      and "\<exists>r\<in>set rs. \<lfloor>r * real (length sgs)\<rfloor> \<noteq> current c"
  shows "\<exists>k. shuffle sgs rs c w = Some (setCurrent (\<lambda>_. k) w)
           \<and> k \<noteq> current c \<and> 0 \<le> k \<and> k < int (length sgs)
           \<and> Some k = List.find (\<lambda>k. k \<noteq> current c) (map (\<lambda>r. \<lfloor>r * real (length sgs)\<rfloor>) rs)"
proof -
  let ?n = "int (length sgs)"
  have "shuffle_loop ?n (current c) rs \<noteq> None"
    using assms(3) by (simp add: shuffle_loop_None)
  then obtain k where k: "shuffle_loop ?n (current c) rs = Some k" by blast
  from shuffle_loop_Some [OF k]
  obtain r where r: "k \<noteq> current c" "r \<in> set rs" "k = \<lfloor>r * of_int ?n\<rfloor>"
    by blast
  have r01: "0 \<le> r" "r < 1" using assms(2) r(2) by auto
  have npos: "0 < ?n" using assms(1) by auto
  have rng: "0 \<le> k \<and> k < ?n"
    unfolding r(3) by (rule draw_in_range [OF r01 npos])
  have f: "Some k = List.find (\<lambda>k. k \<noteq> current c) (map (\<lambda>r. \<lfloor>r * real (length sgs)\<rfloor>) rs)"
    using k by (simp add: shuffle_loop_find)
  have s: "shuffle sgs rs c w = Some (setCurrent (\<lambda>_. k) w)"
    using assms(1) k by (simp add: shuffle_def)
  from s r(1) rng f show ?thesis by blast
qed

text \<open>
  Claim C5. Let the closure of \<^verbatim>\<open>shuffle\<close> be one of the current track, and let every
  draw of \<^verbatim>\<open>Math.random()\<close> lie in \<open>[0, 1)\<close>. With at most one track \<^verbatim>\<open>shuffle\<close>
  changes nothing. With more than one track: if some supplied draw gives an index other than
  the current one, \<^verbatim>\<open>shuffle\<close> returns, the new index differs from the current one, lies
  in \<open>[0, trackCount)\<close>, is the first drawn index that differs, and nothing else of the state
  changes; and as long as every draw gives the current index the loop has not left.
\<close>

theorem shuffle_picks_other:
  assumes "current c = current (ui w)"
      and "\<forall>r\<in>set rs. 0 \<le> r \<and> r < 1"
  shows "(length sgs \<le> 1 \<longrightarrow> shuffle sgs rs c w = Some w)
       \<and> (1 < length sgs \<and> (\<exists>r\<in>set rs. \<lfloor>r * real (length sgs)\<rfloor> \<noteq> current (ui w)) \<longrightarrow>
            (\<exists>w'. shuffle sgs rs c w = Some w'
               \<and> current (ui w') \<noteq> current (ui w)
               \<and> 0 \<le> current (ui w') \<and> current (ui w') < int (length sgs)
               \<and> Some (current (ui w'))
                   = List.find (\<lambda>k. k \<noteq> current (ui w)) (map (\<lambda>r. \<lfloor>r * real (length sgs)\<rfloor>) rs)
               \<and> ui w' = (ui w)\<lparr>current := current (ui w')\<rparr>))
       \<and> (1 < length sgs \<and> (\<forall>r\<in>set rs. \<lfloor>r * real (length sgs)\<rfloor> = current (ui w)) \<longrightarrow>
            shuffle sgs rs c w = None)"
proof (intro conjI impI)
  assume "length sgs \<le> 1"
  then show "shuffle sgs rs c w = Some w" by (simp add: shuffle_def)
next
  assume h: "1 < length sgs \<and> (\<exists>r\<in>set rs. \<lfloor>r * real (length sgs)\<rfloor> \<noteq> current (ui w))"
  then have "\<exists>r\<in>set rs. \<lfloor>r * real (length sgs)\<rfloor> \<noteq> current c"
    using assms(1) by simp
  from shuffle_returns [OF _ assms(2) this, of w] h assms(1)
  show "\<exists>w'. shuffle sgs rs c w = Some w'
               \<and> current (ui w') \<noteq> current (ui w)
               \<and> 0 \<le> current (ui w') \<and> current (ui w') < int (length sgs)
               \<and> Some (current (ui w'))
                   = List.find (\<lambda>k. k \<noteq> current (ui w)) (map (\<lambda>r. \<lfloor>r * real (length sgs)\<rfloor>) rs)
               \<and> ui w' = (ui w)\<lparr>current := current (ui w')\<rparr>"
    by (auto simp: ui_setCurrent)
next
  assume h: "1 < length sgs \<and> (\<forall>r\<in>set rs. \<lfloor>r * real (length sgs)\<rfloor> = current (ui w))"
  then have "shuffle_loop (int (length sgs)) (current c) rs = None"
    using assms(1) by (simp add: shuffle_loop_None)
  then show "shuffle sgs rs c w = None"
    using h by (simp add: shuffle_def)
qed

text \<open>
  With the three songs on track 0: the draw 0.1 gives index 0 and is rejected, the draw 0.5
  gives index 1. With a single song nothing changes; with the draw 0.1 alone the loop is
  still drawing.
\<close>

theorem shuffle_picks_other_witness:
  "current init = current (ui (mount None))
   \<and> shuffle [hd songs] [1/10, 1/2] init (mount None) = Some (mount None)
   \<and> (\<exists>w'. shuffle songs [1/10, 1/2] init (mount None) = Some w' \<and> current (ui w') = 1)
   \<and> shuffle songs [1/10] init (mount None) = None"
proof -
  have c: "current init = current (ui (mount None))"
    by (simp add: mount_None)
  have i: "current (ui (mount None)) = 0"
    by (simp add: mount_None init_def)
  have n: "length songs = 3"
    by (simp add: songs_def)
  have d2: "\<forall>r\<in>set [1/10, 1/2::real]. 0 \<le> r \<and> r < 1" by simp
  have d1: "\<forall>r\<in>set [1/10::real]. 0 \<le> r \<and> r < 1" by simp
  have a: "shuffle [hd songs] [1/10, 1/2] init (mount None) = Some (mount None)"
    using shuffle_picks_other [OF c d2, of "[hd songs]"] by simp
  have b: "\<exists>w'. shuffle songs [1/10, 1/2] init (mount None) = Some w' \<and> current (ui w') = 1"
    using shuffle_picks_other [OF c d2, of songs] by (auto simp: n i)
  have e: "shuffle songs [1/10] init (mount None) = None"
    using shuffle_picks_other [OF c d1, of songs] by (simp add: n i)
  from c a b e show ?thesis by blast
qed

section \<open>Pointer-down on the bars\<close>

lemma percent_fraction:
  "0 < rect_width r \<Longrightarrow> percent (rect_left r + p * rect_width r) r = p"
  by (simp add: percent_def)

text \<open>
  Claim C7. A pointer at horizontal fraction \<open>p\<close> of a bar of positive width: mouse-down
  and touch-start (first touch point) do the same; on the seek bar, with an element present
  and a non-zero duration \<open>D\<close>, the element's current time becomes \<open>D * clamp(p, 0, 1)\<close> and
  nothing else changes, and with duration 0 nothing changes at all; on the volume bar the
  volume becomes \<open>clamp(p, 0, 1)\<close>, nothing else of the state changes, and a changed volume is
  pushed to the element.
\<close>

theorem pointer_down_applies_clamp:
  assumes "0 < rect_width r" and "clientX = rect_left r + p * rect_width r"
  shows "seek_onTouchStart clientX ts r w = seek_onMouseDown clientX r w
       \<and> volume_onTouchStart clientX ts r w = volume_onMouseDown clientX r w
       \<and> (\<forall>a. audioRef w = Some a \<and> duration (ui w) \<noteq> 0 \<longrightarrow>
            seek_onMouseDown clientX r w
              = w\<lparr>audioRef := Some (a\<lparr>el_currentTime := duration (ui w) * min 1 (max 0 p)\<rparr>)\<rparr>)
       \<and> (duration (ui w) = 0 \<longrightarrow> seek_onMouseDown clientX r w = w)
       \<and> ui (volume_onMouseDown clientX r w) = (ui w)\<lparr>volume := min 1 (max 0 p)\<rparr>
       \<and> (\<forall>a. audioRef (volume_onMouseDown clientX r w) = Some a \<and> min 1 (max 0 p) \<noteq> volume (ui w)
             \<longrightarrow> el_volume a = min 1 (max 0 p))"
proof -
  have p: "percent clientX r = p"
    unfolding assms(2) by (rule percent_fraction [OF assms(1)])
  have a: "seek_onTouchStart clientX ts r w = seek_onMouseDown clientX r w"
    by (simp add: seek_onTouchStart_def seek_onMouseDown_def)
  have b: "volume_onTouchStart clientX ts r w = volume_onMouseDown clientX r w"
    by (simp add: volume_onTouchStart_def volume_onMouseDown_def)
  have c: "\<forall>a. audioRef w = Some a \<and> duration (ui w) \<noteq> 0 \<longrightarrow>
            seek_onMouseDown clientX r w
              = w\<lparr>audioRef := Some (a\<lparr>el_currentTime := duration (ui w) * min 1 (max 0 p)\<rparr>)\<rparr>"
    by (simp add: seek_onMouseDown_def seek_bar_update_def p clamped_def)
  have d: "duration (ui w) = 0 \<longrightarrow> seek_onMouseDown clientX r w = w"
    by (simp add: seek_onMouseDown_def seek_bar_update_def split: option.splits)
  have e: "ui (volume_onMouseDown clientX r w) = (ui w)\<lparr>volume := min 1 (max 0 p)\<rparr>"
    by (simp add: volume_onMouseDown_def volume_bar_update_def ui_render p clamped_def)
  have f: "\<forall>a. audioRef (volume_onMouseDown clientX r w) = Some a \<and> min 1 (max 0 p) \<noteq> volume (ui w)
             \<longrightarrow> el_volume a = min 1 (max 0 p)"
    by (auto simp: volume_onMouseDown_def volume_bar_update_def p clamped_def render_def Let_def
        audio_sync_def track_change_def split: option.splits if_splits)
  show ?thesis
    by (rule conjI [OF a conjI [OF b conjI [OF c conjI [OF d conjI [OF e f]]]]])
qed

text \<open>
  A bar from x = 100 to x = 300. With a duration of 180 s, a mouse-down at x = 150 (fraction
  1/4) seeks to 45 s and a touch at x = 400 (fraction 3/2, clamped to 1) to 180 s; with
  duration 0 the seek does nothing. On the volume bar x = 150 gives 1/4, x = 400 gives 1
  (also pushed to the element) and x = 0 (fraction -1/2) gives 0.
\<close>

theorem pointer_down_applies_clamp_witness:
  "map_option el_currentTime
     (audioRef (seek_onMouseDown 150 bar (setMeta (Some 180) (mount (Some fresh_audio))))) = Some 45
   \<and> map_option el_currentTime
     (audioRef (seek_onTouchStart 400 [] bar (setMeta (Some 180) (mount (Some fresh_audio))))) = Some 180
   \<and> seek_onMouseDown 150 bar (mount (Some fresh_audio)) = mount (Some fresh_audio)
   \<and> volume (ui (volume_onMouseDown 150 bar (mount (Some fresh_audio)))) = 1 / 4
   \<and> volume (ui (volume_onMouseDown 400 bar (mount (Some fresh_audio)))) = 1
   \<and> volume (ui (volume_onTouchStart 0 [] bar (mount (Some fresh_audio)))) = 0
   \<and> map_option el_volume (audioRef (volume_onMouseDown 400 bar (mount (Some fresh_audio)))) = Some 1"
proof -
  let ?w0 = "mount (Some fresh_audio)"
  let ?wm = "setMeta (Some 180) ?w0"
  have wd: "0 < rect_width bar" by (simp add: bar_def)
  have x1: "(150::real) = rect_left bar + (1/4) * rect_width bar" by (simp add: bar_def)
  have x2: "(400::real) = rect_left bar + (3/2) * rect_width bar" by (simp add: bar_def)
  have x3: "(0::real) = rect_left bar + (-1/2) * rect_width bar" by (simp add: bar_def)
  have a0: "audioRef ?w0 = Some (fresh_audio\<lparr>el_volume := 1/5, el_listeners := Some init\<rparr>)"
    by (simp add: mount_def track_change_def audio_sync_def init_def)
  have aw: "audioRef ?wm = Some (fresh_audio\<lparr>el_volume := 1/5, el_listeners := Some init\<rparr>)"
    by (simp add: setMeta_def render_def Let_def a0)
  have dw: "duration (ui ?wm) = 180" by (simp add: ui_setMeta)
  have d0: "duration (ui ?w0) = 0" by (simp add: ui_mount init_def)
  have v0: "volume (ui ?w0) = 1/5" by (simp add: ui_mount init_def)
  have s1: "map_option el_currentTime (audioRef (seek_onMouseDown 150 bar ?wm)) = Some 45"
    using pointer_down_applies_clamp [OF wd x1, of "[]" ?wm] aw dw by simp
  have s2: "map_option el_currentTime (audioRef (seek_onTouchStart 400 [] bar ?wm)) = Some 180"
    using pointer_down_applies_clamp [OF wd x2, of "[]" ?wm] aw dw by simp
  have s3: "seek_onMouseDown 150 bar ?w0 = ?w0"
    using pointer_down_applies_clamp [OF wd x1, of "[]" ?w0] d0 by simp
  have v1: "volume (ui (volume_onMouseDown 150 bar ?w0)) = 1 / 4"
    using pointer_down_applies_clamp [OF wd x1, of "[]" ?w0] by simp
  have v2: "volume (ui (volume_onMouseDown 400 bar ?w0)) = 1"
    using pointer_down_applies_clamp [OF wd x2, of "[]" ?w0] by simp
  have v3: "volume (ui (volume_onTouchStart 0 [] bar ?w0)) = 0"
    using pointer_down_applies_clamp [OF wd x3, of "[]" ?w0] by simp
  have "audioRef (volume_onMouseDown 400 bar ?w0) \<noteq> None"
    by (simp add: volume_onMouseDown_def volume_bar_update_def render_def Let_def a0
        audio_sync_def track_change_def)
  then obtain a where a: "audioRef (volume_onMouseDown 400 bar ?w0) = Some a" by blast
  have v4: "map_option el_volume (audioRef (volume_onMouseDown 400 bar ?w0)) = Some 1"
    using pointer_down_applies_clamp [OF wd x2, of "[]" ?w0] a v0 by simp
  show ?thesis
    by (rule conjI [OF s1 conjI [OF s2 conjI [OF s3 conjI [OF v1 conjI [OF v2 conjI [OF v3 v4]]]]]])
qed

section \<open>Volume and listeners stay in sync\<close>

lemma in_sync_render:
  "in_sync w \<Longrightarrow> 0 \<le> volume p' \<Longrightarrow> volume p' \<le> 1 \<Longrightarrow> in_sync (render p' w)"
  by (auto simp: in_sync_def render_def Let_def audio_sync_def track_change_def issue_def
      split: option.splits)

lemma in_sync_mount: "in_sync (mount ref)"
  by (auto simp: in_sync_def mount_def init_def audio_sync_def track_change_def split: option.splits)

lemma in_sync_ui_same:
  "in_sync w \<Longrightarrow> volume p' = volume (ui w) \<Longrightarrow> in_sync (render p' w)"
  by (rule in_sync_render) (simp_all add: in_sync_def)

lemma in_sync_setCurrent: "in_sync w \<Longrightarrow> in_sync (setCurrent f w)"
  unfolding setCurrent_def by (rule in_sync_ui_same) simp_all

lemma in_sync_setState: "in_sync w \<Longrightarrow> in_sync (setState s w)"
  unfolding setState_def by (rule in_sync_ui_same) simp_all

lemma in_sync_log: "in_sync w \<Longrightarrow> audioRef w = Some a \<Longrightarrow> in_sync (w\<lparr>audioRef := Some (issue cs a)\<rparr>)"
  by (auto simp: in_sync_def issue_def split: option.splits)

lemma in_sync_timers: "in_sync (w\<lparr>timers := ts\<rparr>) = in_sync w"
  by (simp add: in_sync_def split: option.splits)

lemma in_sync_uncaught: "in_sync (w\<lparr>uncaught := es\<rparr>) = in_sync w"
  by (simp add: in_sync_def split: option.splits)

lemma in_sync_togglePlay: "in_sync w \<Longrightarrow> in_sync (togglePlay w)"
  by (simp add: togglePlay_def Let_def in_sync_timers in_sync_setState in_sync_ui_same)

lemma in_sync_resume:
  assumes "in_sync w"
  shows "case togglePlay_resume next b w of Inl (e, w') \<Rightarrow> in_sync w' | Inr w' \<Rightarrow> in_sync w'"
  using assms
  by (auto simp: togglePlay_resume_def Let_def in_sync_setState in_sync_log split: option.splits)

lemma in_sync_shuffle: "in_sync w \<Longrightarrow> shuffle sgs rs c w = Some w' \<Longrightarrow> in_sync w'"
  by (auto simp: shuffle_def in_sync_setCurrent split: if_splits option.splits)

lemma in_sync_nextSong: "in_sync w \<Longrightarrow> nextSong sgs rs c w = Some w' \<Longrightarrow> in_sync w'"
  by (auto simp: nextSong_def in_sync_setCurrent split: if_splits intro: in_sync_shuffle)

lemma in_sync_onEnd: "in_sync w \<Longrightarrow> onEnd sgs rs c w = Some w' \<Longrightarrow> in_sync w'"
  by (auto simp: onEnd_def in_sync_setState play_if_present_def in_sync_log
      split: if_splits option.splits intro: in_sync_nextSong in_sync_shuffle)

lemma clamped_range: "0 \<le> clamped p \<and> clamped p \<le> 1"
  by (simp add: clamped_def)

lemma in_sync_volume_bar: "in_sync w \<Longrightarrow> in_sync (volume_bar_update x r w)"
  unfolding volume_bar_update_def by (rule in_sync_render) (simp_all add: clamped_range)

lemma in_sync_seek_bar: "in_sync w \<Longrightarrow> in_sync (seek_bar_update x r w)"
  by (cases "audioRef w") (auto simp: seek_bar_update_def in_sync_def split: option.splits)

lemma in_sync_step:
  assumes "in_sync w" and "step sgs e w = Some w'"
  shows "in_sync w'"
proof (cases e)
  case ClickPlay
  then show ?thesis using assms by (auto simp: in_sync_togglePlay)
next
  case (Timer b)
  show ?thesis
  proof (cases "timers w")
    case Nil
    then show ?thesis using assms Timer by simp
  next
    case (Cons nx ts)
    have "in_sync (w\<lparr>timers := ts\<rparr>)" using assms(1) by (simp add: in_sync_timers)
    from in_sync_resume [OF this, of nx b] assms(2) Timer Cons
    show ?thesis by (auto simp: in_sync_uncaught split: sum.splits)
  qed
next
  case ClickShuffle
  then show ?thesis using assms by (auto simp: toggleShuffle_def in_sync_ui_same)
next
  case ClickRepeat
  then show ?thesis using assms by (auto simp: toggleRepeat_def in_sync_ui_same)
next
  case (ClickNext rs)
  then show ?thesis using assms by (auto intro: in_sync_nextSong)
next
  case ClickPrev
  then show ?thesis using assms by (auto simp: prevSong_def in_sync_setCurrent)
next
  case (Ended rs)
  then show ?thesis using assms by (auto split: option.splits intro: in_sync_onEnd)
next
  case (LoadedMetadata d)
  then show ?thesis using assms by (auto simp: setMeta_def in_sync_ui_same split: option.splits)
next
  case (SeekMouseDown x r)
  then show ?thesis using assms by (auto simp: seek_onMouseDown_def in_sync_seek_bar)
next
  case (SeekTouchStart t0 ts r)
  then show ?thesis using assms by (auto simp: seek_onTouchStart_def in_sync_seek_bar)
next
  case (VolumeMouseDown x r)
  then show ?thesis using assms by (auto simp: volume_onMouseDown_def in_sync_volume_bar)
next
  case (VolumeTouchStart t0 ts r)
  then show ?thesis using assms by (auto simp: volume_onTouchStart_def in_sync_volume_bar)
next
  case (VolumeMove x r)
  then show ?thesis using assms by (auto simp: in_sync_volume_bar)
next
  case Unmount
  then show ?thesis using assms by (auto simp: unmount_def in_sync_def)
qed

lemma in_sync_run: "in_sync w \<Longrightarrow> run sgs es w = Some w' \<Longrightarrow> in_sync w'"
proof (induction es arbitrary: w)
  case Nil
  then show ?case by simp
next
  case (Cons e es)
  from Cons.prems(2) obtain w1 where s: "step sgs e w = Some w1" and r: "run sgs es w1 = Some w'"
    by (simp split: option.splits)
  from in_sync_step [OF Cons.prems(1) s] have "in_sync w1" .
  then show ?case using r by (rule Cons.IH)
qed

text \<open>
  Claim C8. After mounting and any sequence of events (pointer events on bars of positive
  width), the volume of the state is in \<open>[0, 1]\<close>, and the volume of the media element, if
  there is one, equals it and so is in \<open>[0, 1]\<close> as well.
\<close>

theorem volume_always_clamped:
  assumes "run sgs es (mount ref) = Some w" and "\<forall>e\<in>set es. wf_event e"
  shows "0 \<le> volume (ui w) \<and> volume (ui w) \<le> 1
       \<and> (\<forall>a. audioRef w = Some a \<longrightarrow> el_volume a = volume (ui w) \<and> 0 \<le> el_volume a \<and> el_volume a \<le> 1)"
  using in_sync_run [OF in_sync_mount assms(1)] by (auto simp: in_sync_def)

text \<open>
  Drags to the right of the bar, to its left and inside it, with a play toggle in between:
  the volume ends at 1/4, in the state and in the element.
\<close>

theorem volume_always_clamped_witness:
  "(\<exists>w a. run songs [VolumeMouseDown 400 bar, ClickPlay, VolumeMove 0 bar, Timer True,
                VolumeTouchStart 150 [] bar] (mount (Some fresh_audio)) = Some w
        \<and> audioRef w = Some a
        \<and> 0 \<le> volume (ui w) \<and> volume (ui w) \<le> 1
        \<and> el_volume a = volume (ui w) \<and> 0 \<le> el_volume a \<and> el_volume a \<le> 1)"
proof -
  let ?es = "[VolumeMouseDown 400 bar, ClickPlay, VolumeMove 0 bar, Timer True,
                VolumeTouchStart 150 [] bar]"
  have r: "map_option (\<lambda>w. (volume (ui w), map_option el_volume (audioRef w)))
            (run songs ?es (mount (Some fresh_audio))) = Some (1/4, Some (1/4))"
    by code_simp
  then obtain w a where w: "run songs ?es (mount (Some fresh_audio)) = Some w"
    and a: "audioRef w = Some a"
    by auto
  have wf: "\<forall>e\<in>set ?es. wf_event e"
    by (simp add: bar_def)
  from volume_always_clamped [OF w wf] w a show ?thesis by blast
qed

text \<open>
  The attached \<^verbatim>\<open>ended\<close> listener is always a closure of the current track index (and
  volume), the two dependencies of its effect. Nothing of the kind holds for the shuffle flag
  and the repeat mode, see below.
\<close>

lemma ended_listener_of_current_track:
  assumes "run sgs es (mount ref) = Some w" and "audioRef w = Some a" and "el_listeners a = Some c"
  shows "current c = current (ui w) \<and> volume c = volume (ui w)"
  using in_sync_run [OF in_sync_mount assms(1)] assms(2,3) by (simp add: in_sync_def)

section \<open>End of track\<close>

lemma ui_play_if_present: "ui (play_if_present w) = ui w"
  by (simp add: play_if_present_def split: option.splits)

lemma log_play_if_present:
  "map_option el_log (audioRef (play_if_present w)) = map_option (\<lambda>a. el_log a @ [Play]) (audioRef w)"
  by (simp add: play_if_present_def issue_def split: option.splits)

text \<open>
  The branches of \<^verbatim>\<open>onEnd\<close>, for a closure \<open>c\<close> of the current track.
\<close>

lemma onEnd_cases:
  assumes "current c = current (ui w)"
      and "0 \<le> current (ui w)" and "current (ui w) < int (length sgs)"
      and "\<forall>r\<in>set rs. 0 \<le> r \<and> r < 1"
  shows "(repeatMode c = RepeatOne \<longrightarrow>
            (\<exists>w'. onEnd sgs rs c w = Some w' \<and> ui w' = ui w
               \<and> map_option el_log (audioRef w')
                   = map_option (\<lambda>a. el_log a @ [Play]) (audioRef w)))
       \<and> (repeatMode c \<noteq> RepeatOne \<and> isShuffle c \<and> 1 < length sgs
            \<and> (\<exists>r\<in>set rs. \<lfloor>r * real (length sgs)\<rfloor> \<noteq> current (ui w)) \<longrightarrow>
            (\<exists>w'. onEnd sgs rs c w = Some w'
               \<and> current (ui w') \<noteq> current (ui w)
               \<and> 0 \<le> current (ui w') \<and> current (ui w') < int (length sgs)
               \<and> ui w' = (ui w)\<lparr>current := current (ui w')\<rparr>))
       \<and> (repeatMode c = RepeatAll \<and> \<not> isShuffle c \<longrightarrow>
            (\<exists>w'. onEnd sgs rs c w = Some w'
               \<and> ui w' = (ui w)\<lparr>current := (current (ui w) + 1) mod int (length sgs)\<rparr>))
       \<and> (repeatMode c = RepeatOff \<and> \<not> isShuffle c \<and> current (ui w) \<noteq> int (length sgs) - 1 \<longrightarrow>
            (\<exists>w'. onEnd sgs rs c w = Some w'
               \<and> ui w' = (ui w)\<lparr>current := current (ui w) + 1\<rparr>))
       \<and> (repeatMode c = RepeatOff \<and> \<not> isShuffle c \<and> current (ui w) = int (length sgs) - 1 \<longrightarrow>
            onEnd sgs rs c w = Some (w\<lparr>ui := (ui w)\<lparr>state := Paused\<rparr>\<rparr>))"
proof -
  let ?n = "int (length sgs)"
  let ?i = "current (ui w)"
  have n: "0 < ?n" using assms by linarith
  have nxt: "(?i + 1) smod ?n = (?i + 1) mod ?n"
    using assms n by (simp add: smod_nonneg)
  have a: "repeatMode c = RepeatOne \<longrightarrow>
            (\<exists>w'. onEnd sgs rs c w = Some w' \<and> ui w' = ui w
               \<and> map_option el_log (audioRef w')
                   = map_option (\<lambda>a. el_log a @ [Play]) (audioRef w))"
    by (simp add: onEnd_def ui_play_if_present log_play_if_present)
  have b: "repeatMode c \<noteq> RepeatOne \<and> isShuffle c \<and> 1 < length sgs
            \<and> (\<exists>r\<in>set rs. \<lfloor>r * real (length sgs)\<rfloor> \<noteq> current (ui w)) \<longrightarrow>
            (\<exists>w'. onEnd sgs rs c w = Some w'
               \<and> current (ui w') \<noteq> current (ui w)
               \<and> 0 \<le> current (ui w') \<and> current (ui w') < int (length sgs)
               \<and> ui w' = (ui w)\<lparr>current := current (ui w')\<rparr>)"
  proof
    assume h: "repeatMode c \<noteq> RepeatOne \<and> isShuffle c \<and> 1 < length sgs
            \<and> (\<exists>r\<in>set rs. \<lfloor>r * real (length sgs)\<rfloor> \<noteq> current (ui w))"
    then have "onEnd sgs rs c w = shuffle sgs rs c w"
      by (simp add: onEnd_def)
    moreover from h have "\<exists>r\<in>set rs. \<lfloor>r * real (length sgs)\<rfloor> \<noteq> current c"
      using assms(1) by simp
    from shuffle_returns [OF _ assms(4) this, of w] h assms(1)
    have "\<exists>w'. shuffle sgs rs c w = Some w'
               \<and> current (ui w') \<noteq> current (ui w)
               \<and> 0 \<le> current (ui w') \<and> current (ui w') < int (length sgs)
               \<and> ui w' = (ui w)\<lparr>current := current (ui w')\<rparr>"
      by (auto simp: ui_setCurrent)
    ultimately show "\<exists>w'. onEnd sgs rs c w = Some w'
               \<and> current (ui w') \<noteq> current (ui w)
               \<and> 0 \<le> current (ui w') \<and> current (ui w') < int (length sgs)
               \<and> ui w' = (ui w)\<lparr>current := current (ui w')\<rparr>"
      by simp
  qed
  have c: "repeatMode c = RepeatAll \<and> \<not> isShuffle c \<longrightarrow>
            (\<exists>w'. onEnd sgs rs c w = Some w'
               \<and> ui w' = (ui w)\<lparr>current := (current (ui w) + 1) mod int (length sgs)\<rparr>)"
    using nxt by (simp add: onEnd_def nextSong_def ui_setCurrent)
  have d: "repeatMode c = RepeatOff \<and> \<not> isShuffle c \<and> current (ui w) \<noteq> int (length sgs) - 1 \<longrightarrow>
            (\<exists>w'. onEnd sgs rs c w = Some w'
               \<and> ui w' = (ui w)\<lparr>current := current (ui w) + 1\<rparr>)"
  proof
    assume h: "repeatMode c = RepeatOff \<and> \<not> isShuffle c \<and> current (ui w) \<noteq> int (length sgs) - 1"
    then have lt: "?i + 1 < ?n" using assms by linarith
    then have "(?i + 1) mod ?n = ?i + 1" using assms by simp
    with nxt have m: "(?i + 1) smod ?n = ?i + 1" by simp
    have "current c < ?n - 1" using lt assms(1) by linarith
    then have "onEnd sgs rs c w = Some (setCurrent (\<lambda>prev. (prev + 1) smod ?n) w)"
      using h by (simp add: onEnd_def nextSong_def)
    then show "\<exists>w'. onEnd sgs rs c w = Some w'
               \<and> ui w' = (ui w)\<lparr>current := current (ui w) + 1\<rparr>"
      using m by (simp add: ui_setCurrent)
  qed
  have e: "repeatMode c = RepeatOff \<and> \<not> isShuffle c \<and> current (ui w) = int (length sgs) - 1 \<longrightarrow>
            onEnd sgs rs c w = Some (w\<lparr>ui := (ui w)\<lparr>state := Paused\<rparr>\<rparr>)"
    using assms(1) by (simp add: onEnd_def setState_eq)
  show ?thesis
    by (rule conjI [OF a conjI [OF b conjI [OF c conjI [OF d e]]]])
qed

text \<open>
  The same at the level of the event. In every state the mounted component can reach, on a
  valid track \<open>i\<close> of \<open>n\<close>, let \<open>c\<close> be the render whose \<^verbatim>\<open>onEnd\<close> is attached to the
  element. When the element signals the end of the track, the handler decides by the repeat
  mode and the shuffle flag of \<open>c\<close> (not by those of the state), in this order:
  (a) repeat one: it sends \<^verbatim>\<open>play\<close> to the element and leaves the state, index
  included, unchanged;
  (b) else shuffle on (more than one track, some draw in \<open>[0, 1)\<close> giving another index): the
  index becomes a different valid index and nothing else of the state changes;
  (c) else repeat all: the index becomes \<open>(i + 1) mod n\<close>;
  (d) else, not on the last track: the index becomes \<open>i + 1\<close>;
  (e) else: the index stays and the player state becomes paused, nothing else changes.
\<close>

lemma ended_priority:
  assumes "run sgs es (mount ref) = Some w"
      and "audioRef w = Some a" and "el_listeners a = Some c"
      and "0 \<le> current (ui w)" and "current (ui w) < int (length sgs)"
      and "\<forall>r\<in>set rs. 0 \<le> r \<and> r < 1"
  shows "(repeatMode c = RepeatOne \<longrightarrow>
            (\<exists>w'. step sgs (Ended rs) w = Some w' \<and> ui w' = ui w
               \<and> map_option el_log (audioRef w') = Some (el_log a @ [Play])))
       \<and> (repeatMode c \<noteq> RepeatOne \<and> isShuffle c \<and> 1 < length sgs
            \<and> (\<exists>r\<in>set rs. \<lfloor>r * real (length sgs)\<rfloor> \<noteq> current (ui w)) \<longrightarrow>
            (\<exists>w'. step sgs (Ended rs) w = Some w'
               \<and> current (ui w') \<noteq> current (ui w)
               \<and> 0 \<le> current (ui w') \<and> current (ui w') < int (length sgs)
               \<and> ui w' = (ui w)\<lparr>current := current (ui w')\<rparr>))
       \<and> (repeatMode c = RepeatAll \<and> \<not> isShuffle c \<longrightarrow>
            (\<exists>w'. step sgs (Ended rs) w = Some w'
               \<and> ui w' = (ui w)\<lparr>current := (current (ui w) + 1) mod int (length sgs)\<rparr>))
       \<and> (repeatMode c = RepeatOff \<and> \<not> isShuffle c \<and> current (ui w) \<noteq> int (length sgs) - 1 \<longrightarrow>
            (\<exists>w'. step sgs (Ended rs) w = Some w'
               \<and> ui w' = (ui w)\<lparr>current := current (ui w) + 1\<rparr>))
       \<and> (repeatMode c = RepeatOff \<and> \<not> isShuffle c \<and> current (ui w) = int (length sgs) - 1 \<longrightarrow>
            step sgs (Ended rs) w = Some (w\<lparr>ui := (ui w)\<lparr>state := Paused\<rparr>\<rparr>))"
proof -
  have cur: "current c = current (ui w)"
    using ended_listener_of_current_track [OF assms(1,2,3)] by simp
  have st: "step sgs (Ended rs) w = onEnd sgs rs c w"
    using assms(2,3) by simp
  have lg: "map_option (\<lambda>a. el_log a @ [Play]) (audioRef w) = Some (el_log a @ [Play])"
    using assms(2) by simp
  show ?thesis
    unfolding st lg [symmetric] by (rule onEnd_cases [OF cur assms(4,5,6)])
qed

text \<open>
  States reached on the three hard-coded songs, with the listener's repeat mode and shuffle
  flag in each.
\<close>

lemma reach_a:
  "map_option (\<lambda>w. (current (ui w), repeatMode (ui w),
       map_option (\<lambda>a. (el_log a, map_option (\<lambda>c. (repeatMode c, isShuffle c)) (el_listeners a)))
         (audioRef w)))
     (run songs [ClickRepeat, ClickNext []] (mount (Some fresh_audio)))
   = Some (1, RepeatOne, Some ([], Some (RepeatOne, False)))"
  by code_simp

lemma reach_b:
  "map_option (\<lambda>w. (current (ui w),
       map_option (\<lambda>a. map_option (\<lambda>c. (repeatMode c, isShuffle c)) (el_listeners a)) (audioRef w)))
     (run songs [ClickShuffle, ClickNext [1/2]] (mount (Some fresh_audio)))
   = Some (1, Some (Some (RepeatOff, True)))"
  by code_simp

lemma reach_c:
  "map_option (\<lambda>w. (current (ui w),
       map_option (\<lambda>a. map_option (\<lambda>c. (repeatMode c, isShuffle c)) (el_listeners a)) (audioRef w)))
     (run songs [ClickRepeat, ClickRepeat, ClickPrev] (mount (Some fresh_audio)))
   = Some (2, Some (Some (RepeatAll, False)))"
  by code_simp

lemma reach_d:
  "map_option (\<lambda>w. (current (ui w),
       map_option (\<lambda>a. map_option (\<lambda>c. (repeatMode c, isShuffle c)) (el_listeners a)) (audioRef w)))
     (run songs [] (mount (Some fresh_audio)))
   = Some (0, Some (Some (RepeatOff, False)))"
  by code_simp

lemma reach_e:
  "map_option (\<lambda>w. (current (ui w), state (ui w),
       map_option (\<lambda>a. map_option (\<lambda>c. (repeatMode c, isShuffle c)) (el_listeners a)) (audioRef w)))
     (run songs [ClickPlay, Timer True, ClickPrev] (mount (Some fresh_audio)))
   = Some (2, Playing, Some (Some (RepeatOff, False)))"
  by code_simp

text \<open>
  The five branches, each reached by a track change after the last toggle, so that the
  closure holds the flags of the state: repeat one on track 1; shuffle on track 1 (the draw
  0.5 gives index 1 and is rejected, 0.1 gives index 0); repeat all on the last track; no
  repeat on the first track; no repeat on the last track while playing.
\<close>

lemma ended_priority_examples:
  "(\<exists>w w'. run songs [ClickRepeat, ClickNext []] (mount (Some fresh_audio)) = Some w
       \<and> repeatMode (ui w) = RepeatOne \<and> current (ui w) = 1
       \<and> step songs (Ended []) w = Some w' \<and> ui w' = ui w
       \<and> map_option el_log (audioRef w') = Some [Play])
   \<and> (\<exists>w w'. run songs [ClickShuffle, ClickNext [1/2]] (mount (Some fresh_audio)) = Some w
       \<and> current (ui w) = 1
       \<and> step songs (Ended [1/2, 1/10]) w = Some w'
       \<and> current (ui w') \<noteq> 1 \<and> 0 \<le> current (ui w') \<and> current (ui w') < 3)
   \<and> (\<exists>w w'. run songs [ClickRepeat, ClickRepeat, ClickPrev] (mount (Some fresh_audio)) = Some w
       \<and> current (ui w) = 2
       \<and> step songs (Ended []) w = Some w' \<and> current (ui w') = 0)
   \<and> (\<exists>w w'. run songs [] (mount (Some fresh_audio)) = Some w
       \<and> current (ui w) = 0
       \<and> step songs (Ended []) w = Some w' \<and> current (ui w') = 1)
   \<and> (\<exists>w w'. run songs [ClickPlay, Timer True, ClickPrev] (mount (Some fresh_audio)) = Some w
       \<and> current (ui w) = 2 \<and> state (ui w) = Playing
       \<and> step songs (Ended []) w = Some w' \<and> current (ui w') = 2 \<and> state (ui w') = Paused)"
proof -
  have n: "length songs = 3" by (simp add: songs_def)
  have e0: "\<forall>r\<in>set ([]::real list). 0 \<le> r \<and> r < 1" by simp
  have e2: "\<forall>r\<in>set [1/2, 1/10::real]. 0 \<le> r \<and> r < 1" by simp
  have a: "\<exists>w w'. run songs [ClickRepeat, ClickNext []] (mount (Some fresh_audio)) = Some w
       \<and> repeatMode (ui w) = RepeatOne \<and> current (ui w) = 1
       \<and> step songs (Ended []) w = Some w' \<and> ui w' = ui w
       \<and> map_option el_log (audioRef w') = Some [Play]"
  proof -
    from reach_a obtain w a c
      where r: "run songs [ClickRepeat, ClickNext []] (mount (Some fresh_audio)) = Some w"
        and f: "current (ui w) = 1" "repeatMode (ui w) = RepeatOne" "audioRef w = Some a"
          "el_log a = []" "el_listeners a = Some c" "repeatMode c = RepeatOne"
      by auto
    from ended_priority [OF r f(3) f(5) _ _ e0] f n r show ?thesis by auto
  qed
  have b: "\<exists>w w'. run songs [ClickShuffle, ClickNext [1/2]] (mount (Some fresh_audio)) = Some w
       \<and> current (ui w) = 1
       \<and> step songs (Ended [1/2, 1/10]) w = Some w'
       \<and> current (ui w') \<noteq> 1 \<and> 0 \<le> current (ui w') \<and> current (ui w') < 3"
  proof -
    from reach_b obtain w a c
      where r: "run songs [ClickShuffle, ClickNext [1/2]] (mount (Some fresh_audio)) = Some w"
        and f: "current (ui w) = 1" "audioRef w = Some a"
          "el_listeners a = Some c" "repeatMode c = RepeatOff" "isShuffle c"
      by auto
    from ended_priority [OF r f(2) f(3) _ _ e2] f n r show ?thesis by auto
  qed
  have c: "\<exists>w w'. run songs [ClickRepeat, ClickRepeat, ClickPrev] (mount (Some fresh_audio)) = Some w
       \<and> current (ui w) = 2
       \<and> step songs (Ended []) w = Some w' \<and> current (ui w') = 0"
  proof -
    from reach_c obtain w a c
      where r: "run songs [ClickRepeat, ClickRepeat, ClickPrev] (mount (Some fresh_audio)) = Some w"
        and f: "current (ui w) = 2" "audioRef w = Some a"
          "el_listeners a = Some c" "repeatMode c = RepeatAll" "\<not> isShuffle c"
      by auto
    from ended_priority [OF r f(2) f(3) _ _ e0] f n r show ?thesis by auto
  qed
  have d: "\<exists>w w'. run songs [] (mount (Some fresh_audio)) = Some w
       \<and> current (ui w) = 0
       \<and> step songs (Ended []) w = Some w' \<and> current (ui w') = 1"
  proof -
    from reach_d obtain w a c
      where r: "run songs [] (mount (Some fresh_audio)) = Some w"
        and f: "current (ui w) = 0" "audioRef w = Some a"
          "el_listeners a = Some c" "repeatMode c = RepeatOff" "\<not> isShuffle c"
      by auto
    from ended_priority [OF r f(2) f(3) _ _ e0] f n r show ?thesis by auto
  qed
  have e: "\<exists>w w'. run songs [ClickPlay, Timer True, ClickPrev] (mount (Some fresh_audio)) = Some w
       \<and> current (ui w) = 2 \<and> state (ui w) = Playing
       \<and> step songs (Ended []) w = Some w' \<and> current (ui w') = 2 \<and> state (ui w') = Paused"
  proof -
    from reach_e obtain w a c
      where r: "run songs [ClickPlay, Timer True, ClickPrev] (mount (Some fresh_audio)) = Some w"
        and f: "current (ui w) = 2" "state (ui w) = Playing" "audioRef w = Some a"
          "el_listeners a = Some c" "repeatMode c = RepeatOff" "\<not> isShuffle c"
      by auto
    from ended_priority [OF r f(3) f(4) _ _ e0] f n r show ?thesis by auto
  qed
  show ?thesis
    by (rule conjI [OF a conjI [OF b conjI [OF c conjI [OF d e]]]])
qed

section \<open>Stale closure of the end-of-track listener\<close>

text \<open>
  Claim C1 says that at the end of a track the handler resolves, in priority order, by the
  player's repeat mode and shuffle flag: repeat one replays the same track; else shuffle
  jumps to a random different track; else repeat all advances with wraparound; else it
  advances by one when not on the last track; else the index stays and the player state
  becomes paused. The handler reads both from the closure that the last run of the effect
  attached, and that effect runs again only when the track index or the volume changes. After
  a toggle with no such change in between it decides by the old values, in each of the five
  branches (all on the three hard-coded songs, shown is the state after the end of the track):
  (a) repeat set to one on track 0: the index moves to 1 and no \<^verbatim>\<open>play\<close> is sent;
  (b) shuffle switched on on track 0, the draw 0.9 would give track 2: the index moves to 1;
  (c) repeat set to all on the last track: the index stays 2, no wraparound;
  (d) repeat one on track 1, then switched off: track 1 is replayed instead of advancing;
  (e) repeat all on the last track, then switched off: the index wraps to 0 instead of
  staying.
\<close>

theorem ended_decides_by_stale_flags:
  "map_option (\<lambda>w. (repeatMode (ui w), isShuffle (ui w), current (ui w), state (ui w),
       map_option el_log (audioRef w)))
     (run songs [ClickRepeat, Ended []] (mount (Some fresh_audio)))
   = Some (RepeatOne, False, 1, Paused, Some [])
   \<and> map_option (\<lambda>w. (repeatMode (ui w), isShuffle (ui w), current (ui w), state (ui w),
       map_option el_log (audioRef w)))
     (run songs [ClickShuffle, Ended [9/10]] (mount (Some fresh_audio)))
   = Some (RepeatOff, True, 1, Paused, Some [])
   \<and> map_option (\<lambda>w. (repeatMode (ui w), isShuffle (ui w), current (ui w), state (ui w),
       map_option el_log (audioRef w)))
     (run songs [ClickPrev, ClickRepeat, ClickRepeat, Ended []] (mount (Some fresh_audio)))
   = Some (RepeatAll, False, 2, Paused, Some [])
   \<and> map_option (\<lambda>w. (repeatMode (ui w), isShuffle (ui w), current (ui w), state (ui w),
       map_option el_log (audioRef w)))
     (run songs [ClickRepeat, ClickNext [], ClickRepeat, ClickRepeat, Ended []]
        (mount (Some fresh_audio)))
   = Some (RepeatOff, False, 1, Paused, Some [Play])
   \<and> map_option (\<lambda>w. (repeatMode (ui w), isShuffle (ui w), current (ui w), state (ui w),
       map_option el_log (audioRef w)))
     (run songs [ClickRepeat, ClickRepeat, ClickPrev, ClickRepeat, Ended []]
        (mount (Some fresh_audio)))
   = Some (RepeatOff, False, 0, Paused, Some [])"
  by code_simp

text \<open>
  Claim C2 says that the end-of-track listener decides by the shuffle flag and repeat mode
  current when the track ends, the listeners being reattached whenever the track index, the
  shuffle flag or the repeat mode changes. The effect's dependencies are
  \<^verbatim>\<open>[current, volume]\<close> only. The user starts playback on track 0 and then sets the
  repeat mode to "one": the state says repeat one, the attached listener is still the
  closure with repeat off, and when the track ends the player moves on to track 1 (load and
  play of the new track) instead of replaying track 0.
\<close>

theorem ended_uses_stale_repeat_mode:
  "map_option
     (\<lambda>w. (repeatMode (ui w), map_option (map_option repeatMode \<circ> el_listeners) (audioRef w)))
     (run songs [ClickPlay, Timer True, ClickRepeat] (mount (Some fresh_audio)))
   = Some (RepeatOne, Some (Some RepeatOff))
   \<and> map_option (\<lambda>w. (repeatMode (ui w), current (ui w), map_option el_log (audioRef w)))
     (run songs [ClickPlay, Timer True, ClickRepeat, Ended []] (mount (Some fresh_audio)))
   = Some (RepeatOne, 1, Some [Play, Load, Play])"
  by code_simp

section \<open>Track change\<close>

text \<open>
  A render that changes the track index sends \<^verbatim>\<open>load\<close> and \<^verbatim>\<open>play\<close> to the
  element exactly when the user-started flag is set, and leaves the player state as it was.
\<close>

lemma track_change_reloads:
  assumes "current p' \<noteq> current (ui w)" and "audioRef w = Some a"
  shows "map_option el_log (audioRef (render p' w))
           = Some (el_log a @ (if userStarted p' then [Load, Play] else []))"
    and "state (ui (render p' w)) = state p'"
  using assms
  by (simp_all add: render_def Let_def audio_sync_def track_change_def issue_def)

text \<open>
  Claim C3 says that a track change after the first user gesture reloads, attempts playback
  whatever the player state was, and then updates the displayed state to match the playing
  element. The effect ends with \<^verbatim>\<open>setState(state)\<close>, which writes back the value the
  state already has. The user plays, pauses, and presses next: \<^verbatim>\<open>load\<close> and
  \<^verbatim>\<open>play\<close> are sent for track 1, and the displayed state is still paused.
\<close>

theorem track_change_leaves_state_paused:
  "map_option
     (\<lambda>w. (state (ui w), userStarted (ui w), current (ui w), map_option el_log (audioRef w)))
     (run songs [ClickPlay, Timer True, ClickPlay, Timer True, ClickNext []]
        (mount (Some fresh_audio)))
   = Some (Paused, True, 1, Some [Play, Pause, Load, Play])"
  by code_simp

section \<open>Null reference\<close>

text \<open>
  With a null reference the guarded operations do nothing and raise nothing: the toggle, the
  seek update, the optional \<^verbatim>\<open>play\<close> of the end-of-track listener, both effects, and
  so every render.
\<close>

lemma null_ref_is_silent:
  assumes "audioRef w = None"
  shows "togglePlay w = w" and "seek_bar_update x r w = w" and "play_if_present w = w"
    and "audio_sync p w = w" and "track_change p w = w"
    and "audioRef (render p w) = None" and "uncaught (render p w) = uncaught w"
  using assms
  by (simp_all add: togglePlay_def seek_bar_update_def play_if_present_def audio_sync_def
      track_change_def render_def Let_def)

text \<open>
  Claim C9 says that every command to the media element is preceded by a null check of the
  reference and that an absent reference makes the operation a silent no-op, with no error.
  \<^verbatim>\<open>togglePlay\<close> checks the reference before its 400 ms delay and dereferences it again
  after the delay without a check. The user presses play and the component unmounts within
  the delay: the continuation throws a \<^verbatim>\<open>TypeError\<close>, and the state is left at loading.
\<close>

theorem togglePlay_after_unmount_throws:
  "map_option (\<lambda>w. (uncaught w, state (ui w), audioRef w))
     (run songs [ClickPlay, Unmount, Timer True] (mount (Some fresh_audio)))
   = Some ([TypeError], Loading, None)
   \<and> togglePlay_resume Playing True (unmount (togglePlay (mount (Some fresh_audio))))
       = Inl (TypeError, unmount (togglePlay (mount (Some fresh_audio))))"
  by code_simp

end
